theory Spec2Isabelle
  imports Main
begin

section \<open>The random quiz application: data\<close>

text \<open>
  The application keeps its question bank in a pandas DataFrame \<open>df\<close>, read once from a
  spreadsheet, and its per-user state in the Flask session (a signed cookie holding the
  keys \<open>qids\<close> and \<open>started_at\<close>). The model below follows
  \<^verbatim>\<open>random_quiz_app_20260129_022950.py\<close> function by function.
\<close>

text \<open>
  A spreadsheet cell as pandas reads it: text, a number, or an empty cell (NaN).
  (Numeric cells are kept as integers; no function below looks at their value except the
  template's truth test.)
\<close>

datatype cell = Text string | Number int | Empty

text \<open>
  One row of the DataFrame, restricted to the columns the program reads. The required
  columns are always there once startup has passed; \<open>Category\<close> and \<open>Difficulty\<close> are
  optional columns (\<open>None\<close>: the sheet has no such column). The type parameter is the
  type of \<open>QuestionID\<close>: a cell before \<^verbatim>\<open>astype(str)\<close>, a string after it.
\<close>

record 'i row =
  QuestionID :: 'i
  QuestionText :: cell
  OptionA :: cell
  OptionB :: cell
  OptionC :: cell
  OptionD :: cell
  CorrectAnswer :: cell
  Category :: "cell option"
  Difficulty :: "cell option"

text \<open>The sheet as \<^verbatim>\<open>pd.read_excel\<close> returns it: its column names and its rows.\<close>

record sheet =
  columns :: "string list"
  body :: "cell row list"

type_synonym timestamp = string

text \<open>The Flask session: each of its two keys is present (\<open>Some\<close>) or absent.\<close>

record session =
  qids :: "string list option"
  started_at :: "timestamp option"

text \<open>\<^verbatim>\<open>request.form\<close>: \<open>form qid\<close> is \<^verbatim>\<open>request.form.get(qid)\<close>.\<close>

type_synonym form = "string \<rightharpoonup> string"

datatype error =
  RuntimeError "string list"  \<comment> \<open>startup: the missing columns\<close>
| ValueError                  \<comment> \<open>\<^verbatim>\<open>df.sample\<close>: sample larger than population\<close>

text \<open>One entry of the \<open>review\<close> list built by \<open>submit\<close>.\<close>

record review_item =
  rv_QuestionID :: string
  rv_QuestionText :: cell
  rv_YourAnswer :: "string option"
  rv_CorrectAnswer :: cell

text \<open>
  What a route returns: the context handed to \<^verbatim>\<open>render_template_string\<close> in mode
  \<open>quiz\<close> or \<open>result\<close>, or a redirect to another route.
\<close>

datatype response =
  QuizPage "string row list" nat
| ResultPage nat nat "review_item list" timestamp
| Redirect string

section \<open>Startup\<close>

definition APP_TITLE :: string where
  "APP_TITLE = ''Random Quiz (20 of 100)''"

definition QUESTIONS_PER_QUIZ :: nat where
  "QUESTIONS_PER_QUIZ = 20"

definition required_cols :: "string list" where
  "required_cols = [''QuestionID'', ''QuestionText'', ''OptionA'', ''OptionB'',
     ''OptionC'', ''OptionD'', ''CorrectAnswer'']"

text \<open>\<^verbatim>\<open>df["QuestionID"] = df["QuestionID"].astype(str)\<close>, on one row.\<close>

definition astype :: "(cell \<Rightarrow> string) \<Rightarrow> cell row \<Rightarrow> string row" where
  "astype str r =
     \<lparr>QuestionID = str (QuestionID r), QuestionText = QuestionText r,
      OptionA = OptionA r, OptionB = OptionB r, OptionC = OptionC r, OptionD = OptionD r,
      CorrectAnswer = CorrectAnswer r, Category = Category r, Difficulty = Difficulty r\<rparr>"

text \<open>
  The module's top level (lines 16 to 23): the only check is that the required columns
  exist; then the ids are converted to strings. \<open>str\<close> is Python's built-in conversion.
  Neither the number of rows nor the uniqueness of the ids is looked at.
\<close>

definition startup :: "(cell \<Rightarrow> string) \<Rightarrow> sheet \<Rightarrow> error + string row list" where
  "startup str sh =
     (if \<not> set required_cols \<subseteq> set (columns sh)
      then Inl (RuntimeError (filter (\<lambda>c. c \<notin> set (columns sh)) required_cols))
      else Inr (map (astype str) (body sh)))"

section \<open>Selecting questions\<close>

text \<open>
  \<^verbatim>\<open>df.sample(n, replace=False)\<close> once the size check has passed: \<open>n\<close> rows drawn
  without replacement. The random source is a stream \<open>rng\<close> of naturals; the \<open>i\<close>-th
  draw takes the row at position \<open>rng i mod length pool\<close> out of the remaining pool.
\<close>

fun draw :: "(nat \<Rightarrow> nat) \<Rightarrow> nat \<Rightarrow> 'a list \<Rightarrow> nat \<Rightarrow> 'a list" where
  "draw rng i pool 0 = []"
| "draw rng i [] (Suc n) = []"
| "draw rng i (p # ps) (Suc n) =
     (let k = rng i mod length (p # ps)
      in (p # ps) ! k # draw rng (Suc i) (take k (p # ps) @ drop (Suc k) (p # ps)) n)"

text \<open>\<^verbatim>\<open>df.sample\<close> raises ValueError when asked for more rows than there are.\<close>

definition sample :: "(nat \<Rightarrow> nat) \<Rightarrow> 'a list \<Rightarrow> nat \<Rightarrow> error + 'a list" where
  "sample rng df n = (if n > length df then Inl ValueError else Inr (draw rng 0 df n))"

text \<open>\<open>n\<close> is the module constant \<open>QUESTIONS_PER_QUIZ\<close>.\<close>

definition pick_question_ids ::
    "(nat \<Rightarrow> nat) \<Rightarrow> string row list \<Rightarrow> nat \<Rightarrow> error + string list" where
  "pick_question_ids rng df n =
     (case sample rng df n of
        Inl e \<Rightarrow> Inl e
      | Inr smp \<Rightarrow> Inr (map QuestionID smp))"

text \<open>
  \<^verbatim>\<open>qids.index(x)\<close>: the first position of \<open>x\<close>. It is only called on ids that passed
  the \<^verbatim>\<open>isin(qids)\<close> filter, so the not-found case (a ValueError in Python) is never
  reached; the model returns the length there.
\<close>

fun index :: "'a list \<Rightarrow> 'a \<Rightarrow> nat" where
  "index [] x = 0"
| "index (y # ys) x = (if x = y then 0 else Suc (index ys x))"

text \<open>
  \<^verbatim>\<open>_get_questions_by_ids\<close>: the rows of \<open>df\<close> whose id is among \<open>qids\<close>, sorted by
  the position of their id in \<open>qids\<close>; ids that are not in \<open>df\<close> give no row.
  (\<open>sort_key\<close> is a stable insertion sort. pandas sorts with quicksort; the two can differ
  only in the order of rows with equal keys, that is, of bank rows sharing one id.)
\<close>

definition get_questions_by_ids :: "string row list \<Rightarrow> string list \<Rightarrow> string row list" where
  "get_questions_by_ids df ids =
     (let subset = filter (\<lambda>r. QuestionID r \<in> set ids) df
      in sort_key (\<lambda>r. index ids (QuestionID r)) subset)"

section \<open>The routes\<close>

text \<open>\<^verbatim>\<open>GET /\<close>. \<open>now\<close> is the clock reading \<^verbatim>\<open>datetime.utcnow().isoformat()\<close>.\<close>

definition home ::
    "(nat \<Rightarrow> nat) \<Rightarrow> timestamp \<Rightarrow> string row list \<Rightarrow> nat \<Rightarrow> session
      \<Rightarrow> error + session \<times> response" where
  "home rng now df n s =
     (case qids s of
        None \<Rightarrow>
          (case pick_question_ids rng df n of
             Inl e \<Rightarrow> Inl e
           | Inr ids \<Rightarrow>
               (let s' = s\<lparr>qids := Some ids, started_at := Some now\<rparr>;
                    questions = get_questions_by_ids df ids
                in Inr (s', QuizPage questions (length questions))))
      | Some ids \<Rightarrow>
          (let questions = get_questions_by_ids df ids
           in Inr (s, QuizPage questions (length questions))))"

text \<open>\<^verbatim>\<open>your == correct\<close>: a form value (a string, or None) against a cell.\<close>

fun py_eq :: "string option \<Rightarrow> cell \<Rightarrow> bool" where
  "py_eq (Some a) (Text b) = (a = b)"
| "py_eq _ _ = False"

text \<open>The \<^verbatim>\<open>for q in questions\<close> loop of \<open>submit\<close>, with its two accumulators.\<close>

fun score_loop ::
    "form \<Rightarrow> string row list \<Rightarrow> nat \<Rightarrow> review_item list \<Rightarrow> nat \<times> review_item list" where
  "score_loop frm [] score review = (score, review)"
| "score_loop frm (q # qs) score review =
     (let qid = QuestionID q;
          your = frm qid;
          correct = CorrectAnswer q;
          score' = (if py_eq your correct then score + 1 else score)
      in score_loop frm qs score'
           (review @ [\<lparr>rv_QuestionID = qid, rv_QuestionText = QuestionText q,
                        rv_YourAnswer = your, rv_CorrectAnswer = correct\<rparr>]))"

text \<open>
  \<^verbatim>\<open>POST /submit\<close>. \<open>now\<close> is \<^verbatim>\<open>datetime.utcnow().isoformat(timespec="seconds")\<close>.
\<close>

definition submit :: "timestamp \<Rightarrow> string row list \<Rightarrow> form \<Rightarrow> session \<Rightarrow> session \<times> response" where
  "submit now df frm s =
     (case qids s of
        None \<Rightarrow> (s, Redirect ''home'')
      | Some ids \<Rightarrow>
          (let questions = get_questions_by_ids df ids;
               (score, review) = score_loop frm questions 0 [];
               submitted_at = now @ ''Z''
           in (s\<lparr>qids := None, started_at := None\<rparr>,
               ResultPage score (length review) review submitted_at)))"

text \<open>\<^verbatim>\<open>GET /start-over\<close>.\<close>

definition start_over :: "session \<Rightarrow> session \<times> response" where
  "start_over s = (s\<lparr>qids := None, started_at := None\<rparr>, Redirect ''home'')"

section \<open>The quiz page\<close>

text \<open>Python's truth value of \<^verbatim>\<open>q.get(col)\<close>; NaN is true.\<close>

fun truthy :: "cell option \<Rightarrow> bool" where
  "truthy None = False"
| "truthy (Some (Text t)) = (t \<noteq> [])"
| "truthy (Some (Number k)) = (k \<noteq> 0)"
| "truthy (Some Empty) = True"

text \<open>A piece of the rendered page: template text, or an interpolated cell.\<close>

datatype piece = Lit string | Val "cell option"

text \<open>One \<^verbatim>\<open><div class="q">\<close> of the form, as the template fills it in.\<close>

record rendered_question =
  rq_index :: nat
  rq_text :: cell
  rq_meta :: "piece list option"
  rq_name :: string
  rq_options :: "(string \<times> cell) list"

record rendered_quiz =
  pg_title :: string
  pg_n :: nat
  pg_questions :: "rendered_question list"

definition render_meta :: "string row \<Rightarrow> piece list option" where
  "render_meta q =
     (if truthy (Category q) \<or> truthy (Difficulty q)
      then Some
        ((if truthy (Category q) then [Lit ''Category: '', Val (Category q)] else []) @
         (if truthy (Difficulty q)
          then (if truthy (Category q) then [Lit '' | ''] else []) @
               [Lit ''Difficulty: '', Val (Difficulty q)]
          else []))
      else None)"

definition render_question :: "nat \<Rightarrow> string row \<Rightarrow> rendered_question" where
  "render_question i q =
     \<lparr>rq_index = i, rq_text = QuestionText q, rq_meta = render_meta q,
      rq_name = QuestionID q,
      rq_options = [(''A'', OptionA q), (''B'', OptionB q), (''C'', OptionC q), (''D'', OptionD q)]\<rparr>"

text \<open>The \<open>quiz\<close> branch of \<open>PAGE\<close>; \<open>loop.index\<close> counts from 1.\<close>

definition render_quiz :: "string row list \<Rightarrow> nat \<Rightarrow> rendered_quiz" where
  "render_quiz questions n =
     \<lparr>pg_title = APP_TITLE, pg_n = n,
      pg_questions = map2 render_question [1 ..< Suc (length questions)] questions\<rparr>"

text \<open>What the browser gets from a response of \<open>home\<close>.\<close>

fun rendered :: "response \<Rightarrow> rendered_quiz option" where
  "rendered (QuizPage questions n) = Some (render_quiz questions n)"
| "rendered _ = None"

text \<open>
  What \<open>home\<close> sends back: the session it leaves and the page rendered from the template
  context.
\<close>

definition home_html ::
    "(nat \<Rightarrow> nat) \<Rightarrow> timestamp \<Rightarrow> string row list \<Rightarrow> nat \<Rightarrow> session
      \<Rightarrow> error + session \<times> rendered_quiz option" where
  "home_html rng now df n s =
     (case home rng now df n s of
        Inl e \<Rightarrow> Inl e
      | Inr (s', resp) \<Rightarrow> Inr (s', rendered resp))"

section \<open>Auxiliary definitions\<close>

text \<open>The review entry the loop of \<open>submit\<close> appends for a question.\<close>

definition review_of :: "form \<Rightarrow> string row \<Rightarrow> review_item" where
  "review_of frm q =
     \<lparr>rv_QuestionID = QuestionID q, rv_QuestionText = QuestionText q,
      rv_YourAnswer = frm (QuestionID q), rv_CorrectAnswer = CorrectAnswer q\<rparr>"

text \<open>A small bank for the concrete checks.\<close>

definition question :: "string \<Rightarrow> string \<Rightarrow> string row" where
  "question i c =
     \<lparr>QuestionID = i, QuestionText = Text (''Question '' @ i),
      OptionA = Text ''first'', OptionB = Text ''second'', OptionC = Text ''third'',
      OptionD = Text ''fourth'', CorrectAnswer = Text c, Category = None, Difficulty = None\<rparr>"

definition bank2 :: "string row list" where
  "bank2 = [question ''q1'' ''A'', question ''q2'' ''C'']"

definition bank3 :: "string row list" where
  "bank3 = [question ''q1'' ''A'', question ''q2'' ''C'', question ''q3'' ''B'']"

text \<open>
  A one-row sheet with text ids, and the string conversion on it (the conversion matters
  only for the ids, which are text here).
\<close>

definition text_of :: "cell \<Rightarrow> string" where
  "text_of c = (case c of Text t \<Rightarrow> t | Number k \<Rightarrow> ''num'' | Empty \<Rightarrow> ''nan'')"

definition sheet1 :: sheet where
  "sheet1 =
     \<lparr>columns = [''QuestionID'', ''QuestionText'', ''OptionA'', ''OptionB'', ''OptionC'',
        ''OptionD'', ''CorrectAnswer''],
      body = [\<lparr>QuestionID = Text ''q1'', QuestionText = Text ''Question q1'',
               OptionA = Text ''first'', OptionB = Text ''second'', OptionC = Text ''third'',
               OptionD = Text ''fourth'', CorrectAnswer = Text ''A'', Category = None,
               Difficulty = None\<rparr>]\<rparr>"

section \<open>Drawing without replacement\<close>

lemma draw_Nil: "draw rng i [] n = []"
  by (cases n) simp_all

lemma draw_Suc:
  "pool \<noteq> [] \<Longrightarrow> draw rng i pool (Suc n) =
     pool ! (rng i mod length pool) #
       draw rng (Suc i) (take (rng i mod length pool) pool @ drop (Suc (rng i mod length pool)) pool) n"
  by (cases pool) (simp_all add: Let_def del: take_Suc_Cons drop_Suc_Cons nth_Cons_Suc)

lemma length_remove_nth: "k < length xs \<Longrightarrow> length (take k xs @ drop (Suc k) xs) = length xs - 1"
  by simp

lemma length_draw: "n \<le> length pool \<Longrightarrow> length (draw rng i pool n) = n"
proof (induction n arbitrary: i pool)
  case 0
  show ?case by simp
next
  case (Suc n)
  then have ne: "pool \<noteq> []" by auto
  let ?k = "rng i mod length pool"
  have k: "?k < length pool" using ne by simp
  have "n \<le> length (take ?k pool @ drop (Suc ?k) pool)"
    using Suc.prems length_remove_nth[OF k] by simp
  then show ?case using Suc.IH by (simp add: draw_Suc[OF ne])
qed

lemma set_remove_nth: "set (take k xs @ drop (Suc k) xs) \<subseteq> set xs"
  by (auto dest: in_set_takeD in_set_dropD)

lemma distinct_map_remove_nth:
  assumes "distinct (map f xs)" "k < length xs"
  shows "distinct (map f (take k xs @ drop (Suc k) xs)) \<and> f (xs ! k) \<notin> f ` set (take k xs @ drop (Suc k) xs)"
proof -
  have "xs = take k xs @ xs ! k # drop (Suc k) xs" using assms(2) by (rule id_take_nth_drop)
  then have "distinct (map f (take k xs @ xs ! k # drop (Suc k) xs))" using assms(1) by simp
  then show ?thesis by auto
qed

lemma set_draw: "set (draw rng i pool n) \<subseteq> set pool"
proof (induction n arbitrary: i pool)
  case 0
  show ?case by simp
next
  case (Suc n)
  show ?case
  proof (cases "pool = []")
    case True
    then show ?thesis by (simp add: draw_Nil)
  next
    case ne: False
    let ?k = "rng i mod length pool"
    let ?rest = "take ?k pool @ drop (Suc ?k) pool"
    have k: "?k < length pool" using ne by simp
    have "set (draw rng (Suc i) ?rest n) \<subseteq> set pool"
      using Suc.IH[of "Suc i" ?rest] set_remove_nth[of ?k pool] by (rule order_trans)
    moreover have "pool ! ?k \<in> set pool" using k by (rule nth_mem)
    ultimately show ?thesis by (simp add: draw_Suc[OF ne])
  qed
qed

lemma distinct_map_draw: "distinct (map f pool) \<Longrightarrow> distinct (map f (draw rng i pool n))"
proof (induction n arbitrary: i pool)
  case 0
  show ?case by simp
next
  case (Suc n)
  show ?case
  proof (cases "pool = []")
    case True
    then show ?thesis by (simp add: draw_Nil)
  next
    case ne: False
    let ?k = "rng i mod length pool"
    let ?rest = "take ?k pool @ drop (Suc ?k) pool"
    have k: "?k < length pool" using ne by simp
    from distinct_map_remove_nth[OF Suc.prems k]
    have d: "distinct (map f ?rest)" and nin: "f (pool ! ?k) \<notin> f ` set ?rest" by blast+
    have "distinct (map f (draw rng (Suc i) ?rest n))" using Suc.IH[OF d] .
    moreover have "f (pool ! ?k) \<notin> f ` set (draw rng (Suc i) ?rest n)"
      using nin set_draw[of rng "Suc i" ?rest n] by blast
    ultimately show ?thesis by (simp add: draw_Suc[OF ne])
  qed
qed

lemma draw_map: "draw rng i (map f pool) n = map f (draw rng i pool n)"
proof (induction n arbitrary: i pool)
  case 0
  show ?case by simp
next
  case (Suc n)
  show ?case
  proof (cases "pool = []")
    case True
    then show ?thesis by (simp add: draw_Nil)
  next
    case ne: False
    then have ne': "map f pool \<noteq> []" by simp
    let ?k = "rng i mod length pool"
    have k: "?k < length pool" using ne by simp
    let ?rest = "take ?k pool @ drop (Suc ?k) pool"
    have r: "take ?k (map f pool) @ drop (Suc ?k) (map f pool) = map f ?rest"
      by (simp add: take_map drop_map)
    have "draw rng i (map f pool) (Suc n) = f (pool ! ?k) # draw rng (Suc i) (map f ?rest) n"
      using k r by (simp only: draw_Suc[OF ne'] length_map nth_map)
    also have "\<dots> = map f (draw rng i pool (Suc n))"
      by (simp only: Suc.IH draw_Suc[OF ne] list.map)
    finally show ?thesis .
  qed
qed

section \<open>Looking questions up\<close>

lemma index_less: "x \<in> set xs \<Longrightarrow> index xs x < length xs"
  by (induction xs) auto

lemma nth_index: "x \<in> set xs \<Longrightarrow> xs ! index xs x = x"
  by (induction xs) auto

lemma index_inj_on: "inj_on (index xs) (set xs)"
proof (rule inj_onI)
  fix x y assume x: "x \<in> set xs" and y: "y \<in> set xs" and eq: "index xs x = index xs y"
  have "x = xs ! index xs x" using x by (rule nth_index[symmetric])
  also have "\<dots> = xs ! index xs y" by (simp only: eq)
  also have "\<dots> = y" using y by (rule nth_index)
  finally show "x = y" .
qed

lemma index_nth: "distinct xs \<Longrightarrow> i < length xs \<Longrightarrow> index xs (xs ! i) = i"
proof (induction xs arbitrary: i)
  case Nil
  then show ?case by simp
next
  case (Cons a xs)
  show ?case
  proof (cases i)
    case 0
    then show ?thesis by simp
  next
    case (Suc j)
    then have "xs ! j \<in> set xs" using Cons.prems by simp
    then have "xs ! j \<noteq> a" using Cons.prems by auto
    then show ?thesis using Suc Cons by simp
  qed
qed

lemma map_index_self: "distinct xs \<Longrightarrow> map (index xs) xs = [0 ..< length xs]"
  by (rule nth_equalityI) (simp_all add: index_nth)

lemma set_get_questions_by_ids:
  "set (get_questions_by_ids df ids) = {r \<in> set df. QuestionID r \<in> set ids}"
  by (simp add: get_questions_by_ids_def)

lemma length_get_questions_by_ids:
  "length (get_questions_by_ids df ids) = length (filter (\<lambda>r. QuestionID r \<in> set ids) df)"
  by (simp add: get_questions_by_ids_def)

lemma sorted_get_questions_by_ids:
  "sorted (map (index ids) (map QuestionID (get_questions_by_ids df ids)))"
proof -
  have "sorted (map (\<lambda>r. index ids (QuestionID r)) (get_questions_by_ids df ids))"
    unfolding get_questions_by_ids_def Let_def by (rule sorted_sort_key)
  then show ?thesis by (simp add: comp_def)
qed

lemma distinct_get_questions_by_ids:
  assumes "distinct (map QuestionID df)"
  shows "distinct (map QuestionID (get_questions_by_ids df ids))"
proof -
  have "distinct (map QuestionID (filter (\<lambda>r. QuestionID r \<in> set ids) df))"
    using assms by (rule distinct_map_filter)
  then show ?thesis by (simp add: distinct_map get_questions_by_ids_def)
qed

lemma ids_get_questions_by_ids:
  assumes bank: "distinct (map QuestionID df)" and sel: "distinct ids"
  shows "map QuestionID (get_questions_by_ids df ids) = filter (\<lambda>i. i \<in> QuestionID ` set df) ids"
proof -
  let ?got = "map QuestionID (get_questions_by_ids df ids)"
  let ?kept = "filter (\<lambda>i. i \<in> QuestionID ` set df) ids"
  have sets: "set ?got = set ?kept"
    by (auto simp: set_get_questions_by_ids)
  have sub1: "set ?got \<subseteq> set ids" and sub2: "set ?kept \<subseteq> set ids"
    by (auto simp: set_get_questions_by_ids)
  have s1: "sorted (map (index ids) ?got)" by (rule sorted_get_questions_by_ids)
  have "sorted (map (index ids) ids)" using sel by (simp add: map_index_self)
  then have s2: "sorted (map (index ids) ?kept)" by (rule sorted_filter)
  have i1: "inj_on (index ids) (set ?got)" and i2: "inj_on (index ids) (set ?kept)"
    using sub1 sub2 index_inj_on[of ids] by (blast intro: inj_on_subset)+
  have "distinct ?got" using bank by (rule distinct_get_questions_by_ids)
  then have d1: "distinct (map (index ids) ?got)"
    using i1 by (subst distinct_map) blast
  have "distinct ?kept" using sel by simp
  then have d2: "distinct (map (index ids) ?kept)"
    using i2 by (subst distinct_map) blast
  have "set (map (index ids) ?got) = set (map (index ids) ?kept)"
    using sets by (simp only: set_map)
  then have "map (index ids) ?got = map (index ids) ?kept"
    using s1 d1 s2 d2 by (simp add: sorted_distinct_set_unique)
  moreover have "inj_on (index ids) (set ?got \<union> set ?kept)"
    using sub1 sub2 index_inj_on[of ids] by (simp add: inj_on_subset)
  ultimately show ?thesis by (simp only: inj_on_map_eq_map)
qed

section \<open>Scoring\<close>

lemma score_loop_eq:
  "score_loop frm qs sc rv =
     (sc + length (filter (\<lambda>q. py_eq (frm (QuestionID q)) (CorrectAnswer q)) qs),
      rv @ map (review_of frm) qs)"
  by (induction qs arbitrary: sc rv) (simp_all add: Let_def review_of_def)

lemma submit_active:
  assumes "qids s = Some ids"
  shows "submit now df frm s =
     (s\<lparr>qids := None, started_at := None\<rparr>,
      ResultPage
        (length (filter (\<lambda>q. py_eq (frm (QuestionID q)) (CorrectAnswer q)) (get_questions_by_ids df ids)))
        (length (get_questions_by_ids df ids))
        (map (review_of frm) (get_questions_by_ids df ids))
        (now @ ''Z''))"
  using assms by (simp add: submit_def Let_def score_loop_eq)

lemma rv_ids: "map rv_QuestionID (map (review_of frm) qs) = map QuestionID qs"
  by (simp add: review_of_def comp_def)

lemma insort_key_map:
  "insort_key k (f x) (map f xs) = map f (insort_key (\<lambda>y. k (f y)) x xs)"
  by (induction xs) simp_all

lemma sort_key_map: "sort_key k (map f xs) = map f (sort_key (\<lambda>y. k (f y)) xs)"
  by (induction xs) (simp_all add: insort_key_map)

lemma get_questions_by_ids_map:
  assumes "\<And>r. QuestionID (f r) = QuestionID r"
  shows "get_questions_by_ids (map f df) ids = map f (get_questions_by_ids df ids)"
  by (simp add: get_questions_by_ids_def filter_map comp_def assms sort_key_map)

lemma pick_question_ids_map:
  assumes "\<And>r. QuestionID (f r) = QuestionID r"
  shows "pick_question_ids rng (map f df) n = pick_question_ids rng df n"
  by (simp add: pick_question_ids_def sample_def draw_map comp_def assms)

lemma home_active:
  "qids s = Some ids \<Longrightarrow>
   home rng now df n s =
     Inr (s, QuizPage (get_questions_by_ids df ids) (length (get_questions_by_ids df ids)))"
  by (simp add: home_def Let_def)


lemma pick_question_ids_ok:
  "n \<le> length df \<Longrightarrow> pick_question_ids rng df n = Inr (map QuestionID (draw rng 0 df n))"
  by (simp add: pick_question_ids_def sample_def)

lemma session_cleared: "(s::session)\<lparr>qids := None, started_at := None\<rparr> = \<lparr>qids = None, started_at = None\<rparr>"
  by simp

lemma ids_get_questions_by_ids_all:
  assumes "distinct (map QuestionID df)" and "distinct ids" and "set ids \<subseteq> QuestionID ` set df"
  shows "map QuestionID (get_questions_by_ids df ids) = ids"
proof -
  have "filter (\<lambda>i. i \<in> QuestionID ` set df) ids = ids"
    using assms(3) by (intro filter_True) blast
  then show ?thesis using ids_get_questions_by_ids[OF assms(1,2)] by simp
qed

section \<open>The rendered page and the answer column\<close>

lemma render_question_erase:
  "render_question i (q\<lparr>CorrectAnswer := c\<rparr>) = render_question i q"
  by (simp add: render_question_def render_meta_def)

lemma render_quiz_erase:
  "render_quiz (map (\<lambda>r. r\<lparr>CorrectAnswer := c\<rparr>) qs) k = render_quiz qs k"
  by (simp add: render_quiz_def zip_map2 render_question_erase case_prod_unfold comp_def)

lemma home_html_erase:
  "home_html rng now (map (\<lambda>r. r\<lparr>CorrectAnswer := c\<rparr>) df) n s = home_html rng now df n s"
proof -
  let ?e = "\<lambda>r::string row. r\<lparr>CorrectAnswer := c\<rparr>"
  have id: "\<And>r. QuestionID (?e r) = QuestionID r" by simp
  have g: "get_questions_by_ids (map ?e df) ids = map ?e (get_questions_by_ids df ids)" for ids
    using id by (rule get_questions_by_ids_map)
  have p: "pick_question_ids rng (map ?e df) n = pick_question_ids rng df n"
    using id by (rule pick_question_ids_map)
  show ?thesis
    by (simp add: home_html_def home_def Let_def g p render_quiz_erase
        split: option.splits sum.splits)
qed

section \<open>Concrete evaluations\<close>

text \<open>Concrete evaluations used by the checks below.\<close>

lemma draw_bank3: "draw (\<lambda>i. 4 + i) 0 bank3 2 = [question ''q2'' ''C'', question ''q3'' ''B'']"
  by code_simp

lemma pick_bank3: "pick_question_ids (\<lambda>i. 4 + i) bank3 2 = Inr [''q2'', ''q3'']"
proof -
  have "2 \<le> length bank3" by (simp add: bank3_def)
  then show ?thesis by (simp add: pick_question_ids_ok draw_bank3 question_def)
qed

section \<open>The claims\<close>

text \<open>
  Claim C9. Submitting while the session has no \<open>qids\<close> key is not an error and gives
  no score: \<open>submit\<close> answers with a redirect to \<open>home\<close> (the route that starts a quiz)
  and returns the session exactly as it got it.
\<close>

theorem C9_submit_absent_redirects:
  assumes "qids s = None"
  shows "submit now df frm s = (s, Redirect ''home'')"
  using assms by (simp add: submit_def)

theorem C9_witness:
  "qids \<lparr>qids = None, started_at = None\<rparr> = None \<and>
   submit ''2026-01-29T02:29:50'' bank2 [''q1'' \<mapsto> ''A'']
     \<lparr>qids = None, started_at = None\<rparr> =
     (\<lparr>qids = None, started_at = None\<rparr>, Redirect ''home'')"
proof -
  have h: "qids \<lparr>qids = None, started_at = None\<rparr> = None" by simp
  show ?thesis using h C9_submit_absent_redirects[OF h] by simp
qed

text \<open>
  Claim C10. For an active session, the outcome of \<open>submit\<close> (the score, the total and
  the review, and with them the cleared session) depends on the form only through the
  values submitted under the session's selected ids: two forms that agree on those ids,
  whatever other fields they carry, give the same result. No assumption on the bank is
  needed.
\<close>

theorem C10_score_depends_on_selected_labels:
  assumes "qids s = Some ids" and "\<forall>i \<in> set ids. f1 i = f2 i"
  shows "submit now df f1 s = submit now df f2 s"
proof -
  have in_ids: "QuestionID q \<in> set ids" if "q \<in> set (get_questions_by_ids df ids)" for q
    using that by (simp add: set_get_questions_by_ids)
  have "filter (\<lambda>q. py_eq (f1 (QuestionID q)) (CorrectAnswer q)) (get_questions_by_ids df ids) =
        filter (\<lambda>q. py_eq (f2 (QuestionID q)) (CorrectAnswer q)) (get_questions_by_ids df ids)"
    using assms(2) in_ids by (intro filter_cong) auto
  moreover have "map (review_of f1) (get_questions_by_ids df ids) =
        map (review_of f2) (get_questions_by_ids df ids)"
    using assms(2) in_ids by (intro map_cong) (auto simp: review_of_def)
  ultimately show ?thesis by (simp add: submit_active[OF assms(1)])
qed

theorem C10_witness:
  "qids \<lparr>qids = Some [''q2'', ''q1''], started_at = Some ''t0''\<rparr> = Some [''q2'', ''q1''] \<and>
   submit ''t1'' bank2 [''q1'' \<mapsto> ''A'', ''q2'' \<mapsto> ''B'', ''csrf'' \<mapsto> ''x'']
       \<lparr>qids = Some [''q2'', ''q1''], started_at = Some ''t0''\<rparr> =
   submit ''t1'' bank2 [''q1'' \<mapsto> ''A'', ''q2'' \<mapsto> ''B'', ''q9'' \<mapsto> ''D'']
       \<lparr>qids = Some [''q2'', ''q1''], started_at = Some ''t0''\<rparr>"
proof -
  have h1: "qids \<lparr>qids = Some [''q2'', ''q1''], started_at = Some ''t0''\<rparr> = Some [''q2'', ''q1'']"
    by simp
  have h2: "\<forall>i \<in> set [''q2'', ''q1''].
      [''q1'' \<mapsto> ''A'', ''q2'' \<mapsto> ''B'', ''csrf'' \<mapsto> ''x''] i =
      [''q1'' \<mapsto> ''A'', ''q2'' \<mapsto> ''B'', ''q9'' \<mapsto> ''D''] i"
    by simp
  show ?thesis by (rule conjI[OF h1 C10_score_depends_on_selected_labels[OF h1 h2]])
qed

text \<open>
  Claim C6. For an active session, \<open>home\<close> leaves the session as it is and returns the
  questions of the stored ids; neither the random source nor the clock is consulted, so
  any two calls (the second one on the session the first one returned, which is the same
  session) return the same questions in the same order.
\<close>

theorem C6_home_idempotent:
  assumes "qids s = Some ids"
  shows "\<exists>qs. home rng1 t1 df n s = Inr (s, QuizPage qs (length qs)) \<and>
              home rng2 t2 df n s = Inr (s, QuizPage qs (length qs))"
  using assms by (simp add: home_active)

theorem C6_witness:
  "qids \<lparr>qids = Some [''q2'', ''q1''], started_at = Some ''t0''\<rparr> = Some [''q2'', ''q1''] \<and>
   home (\<lambda>i. 0) ''t1'' bank2 2 \<lparr>qids = Some [''q2'', ''q1''], started_at = Some ''t0''\<rparr> =
     Inr (\<lparr>qids = Some [''q2'', ''q1''], started_at = Some ''t0''\<rparr>,
          QuizPage [question ''q2'' ''C'', question ''q1'' ''A''] 2) \<and>
   home (\<lambda>i. i) ''t2'' bank2 2 \<lparr>qids = Some [''q2'', ''q1''], started_at = Some ''t0''\<rparr> =
     Inr (\<lparr>qids = Some [''q2'', ''q1''], started_at = Some ''t0''\<rparr>,
          QuizPage [question ''q2'' ''C'', question ''q1'' ''A''] 2)"
proof -
  have h: "qids \<lparr>qids = Some [''q2'', ''q1''], started_at = Some ''t0''\<rparr> = Some [''q2'', ''q1'']"
    by simp
  have g: "get_questions_by_ids bank2 [''q2'', ''q1''] = [question ''q2'' ''C'', question ''q1'' ''A'']"
    by (simp add: get_questions_by_ids_def bank2_def question_def)
  show ?thesis
    using h C6_home_idempotent[OF h, of "\<lambda>i. 0" "''t1''" bank2 2 "\<lambda>i. i" "''t2''"]
    by (simp add: home_active g)
qed

text \<open>
  Claim C2. When the requested count does not exceed the number of rows and the ids of
  the bank are unique (a valid bank), \<open>_pick_question_ids\<close> returns exactly that many
  ids, pairwise distinct, each the id of a row of the bank.
\<close>

theorem C2_pick_returns_count_distinct_ids:
  assumes "n \<le> length df" and "distinct (map QuestionID df)"
  shows "\<exists>ids. pick_question_ids rng df n = Inr ids \<and> length ids = n \<and> distinct ids \<and>
               set ids \<subseteq> QuestionID ` set df"
proof -
  let ?ids = "map QuestionID (draw rng 0 df n)"
  have "pick_question_ids rng df n = Inr ?ids" using assms(1) by (rule pick_question_ids_ok)
  moreover have "length ?ids = n" using assms(1) by (simp add: length_draw)
  moreover have "distinct ?ids" using assms(2) by (rule distinct_map_draw)
  moreover have "set ?ids \<subseteq> QuestionID ` set df" using set_draw[of rng 0 df n] by auto
  ultimately show ?thesis by blast
qed

theorem C2_witness:
  "2 \<le> length bank3 \<and> distinct (map QuestionID bank3) \<and>
   pick_question_ids (\<lambda>i. 4 + i) bank3 2 = Inr [''q2'', ''q3'']"
proof -
  have h1: "2 \<le> length bank3" by (simp add: bank3_def)
  have h2: "distinct (map QuestionID bank3)" by (simp add: bank3_def question_def)
  show ?thesis
    using h1 h2 pick_bank3 C2_pick_returns_count_distinct_ids[OF h1 h2, of "\<lambda>i. 4 + i"] by simp
qed

text \<open>
  Claim C8. After \<open>submit\<close> on an active session, both session keys are gone. A
  following \<open>home\<close> therefore takes the creation branch: its result is determined by a
  fresh draw from the bank and the current clock reading, and never by the ids the session
  held before; when the count fits the bank, it succeeds and stores the newly drawn ids.
\<close>

theorem C8_submit_clears_session:
  assumes "qids s = Some ids"
  shows "fst (submit now df frm s) = \<lparr>qids = None, started_at = None\<rparr> \<and>
         home rng now' df n (fst (submit now df frm s)) =
           (case pick_question_ids rng df n of
              Inl e \<Rightarrow> Inl e
            | Inr new \<Rightarrow>
                Inr (\<lparr>qids = Some new, started_at = Some now'\<rparr>,
                     QuizPage (get_questions_by_ids df new)
                       (length (get_questions_by_ids df new)))) \<and>
         (n \<le> length df \<longrightarrow>
            (\<exists>new qs. pick_question_ids rng df n = Inr new \<and> length new = n \<and>
               home rng now' df n (fst (submit now df frm s)) =
                 Inr (\<lparr>qids = Some new, started_at = Some now'\<rparr>, QuizPage qs (length qs))))"
proof -
  have c: "fst (submit now df frm s) = \<lparr>qids = None, started_at = None\<rparr>"
    by (simp add: submit_active[OF assms])
  have h: "home rng now' df n \<lparr>qids = None, started_at = None\<rparr> =
           (case pick_question_ids rng df n of
              Inl e \<Rightarrow> Inl e
            | Inr new \<Rightarrow>
                Inr (\<lparr>qids = Some new, started_at = Some now'\<rparr>,
                     QuizPage (get_questions_by_ids df new)
                       (length (get_questions_by_ids df new))))"
    by (simp add: home_def Let_def split: sum.splits)
  have "\<exists>new qs. pick_question_ids rng df n = Inr new \<and> length new = n \<and>
          home rng now' df n \<lparr>qids = None, started_at = None\<rparr> =
            Inr (\<lparr>qids = Some new, started_at = Some now'\<rparr>, QuizPage qs (length qs))"
    if "n \<le> length df"
    using that by (simp add: h pick_question_ids_ok length_draw)
  then show ?thesis using h by (simp only: c) blast
qed

theorem C8_witness:
  "qids \<lparr>qids = Some [''q1''], started_at = Some ''t0''\<rparr> = Some [''q1''] \<and>
   fst (submit ''t1'' bank3 [''q1'' \<mapsto> ''A''] \<lparr>qids = Some [''q1''], started_at = Some ''t0''\<rparr>) =
     \<lparr>qids = None, started_at = None\<rparr> \<and>
   home (\<lambda>i. 4 + i) ''t2'' bank3 2
       (fst (submit ''t1'' bank3 [''q1'' \<mapsto> ''A''] \<lparr>qids = Some [''q1''], started_at = Some ''t0''\<rparr>)) =
     Inr (\<lparr>qids = Some [''q2'', ''q3''], started_at = Some ''t2''\<rparr>,
          QuizPage [question ''q2'' ''C'', question ''q3'' ''B''] 2)"
proof -
  have h: "qids \<lparr>qids = Some [''q1''], started_at = Some ''t0''\<rparr> = Some [''q1'']" by simp
  have g: "get_questions_by_ids bank3 [''q2'', ''q3''] = [question ''q2'' ''C'', question ''q3'' ''B'']"
    by (simp add: get_questions_by_ids_def bank3_def question_def)
  note t = C8_submit_clears_session[OF h, of "''t1''" bank3 "[''q1'' \<mapsto> ''A'']" "\<lambda>i. 4 + i" "''t2''" 2]
  have a: "fst (submit ''t1'' bank3 [''q1'' \<mapsto> ''A''] \<lparr>qids = Some [''q1''], started_at = Some ''t0''\<rparr>) =
     \<lparr>qids = None, started_at = None\<rparr>"
    using t by (rule conjunct1)
  have b: "home (\<lambda>i. 4 + i) ''t2'' bank3 2
       (fst (submit ''t1'' bank3 [''q1'' \<mapsto> ''A''] \<lparr>qids = Some [''q1''], started_at = Some ''t0''\<rparr>)) =
     Inr (\<lparr>qids = Some [''q2'', ''q3''], started_at = Some ''t2''\<rparr>,
          QuizPage [question ''q2'' ''C'', question ''q3'' ''B''] 2)"
    using conjunct1[OF conjunct2[OF t]] by (simp add: pick_bank3 g)
  show ?thesis using h a b by (intro conjI)
qed

text \<open>
  Claim C1. For an active session whose selected ids are all in the bank, and a form
  that carries, for every selected question, the text of its \<open>CorrectAnswer\<close> cell, the
  score equals the total shown (the number of review entries). With unique ids in the bank
  and a selection without repetitions (what \<open>_pick_question_ids\<close> produces on such a
  bank), that total is the number of selected ids.
\<close>

theorem C1_all_correct_scores_total:
  assumes "qids s = Some ids"
    and "set ids \<subseteq> QuestionID ` set df"
    and "\<forall>r \<in> set df. QuestionID r \<in> set ids \<longrightarrow>
           (\<exists>a. frm (QuestionID r) = Some a \<and> CorrectAnswer r = Text a)"
  shows "\<exists>score total review t.
           snd (submit now df frm s) = ResultPage score total review t \<and>
           score = total \<and> total = length review \<and>
           (distinct (map QuestionID df) \<and> distinct ids \<longrightarrow> total = length ids)"
proof -
  let ?qs = "get_questions_by_ids df ids"
  have "py_eq (frm (QuestionID q)) (CorrectAnswer q)" if "q \<in> set ?qs" for q
  proof -
    from that have "q \<in> set df" "QuestionID q \<in> set ids"
      by (simp_all add: set_get_questions_by_ids)
    with assms(3) obtain a where "frm (QuestionID q) = Some a" "CorrectAnswer q = Text a"
      by blast
    then show ?thesis by simp
  qed
  then have all: "filter (\<lambda>q. py_eq (frm (QuestionID q)) (CorrectAnswer q)) ?qs = ?qs"
    by (intro filter_True) blast
  have len: "length ?qs = length ids" if "distinct (map QuestionID df)" "distinct ids"
  proof -
    have "length (map QuestionID ?qs) = length ids"
      by (simp only: ids_get_questions_by_ids_all[OF that assms(2)])
    then show ?thesis by simp
  qed
  have "snd (submit now df frm s) =
          ResultPage (length ?qs) (length ?qs) (map (review_of frm) ?qs) (now @ ''Z'')"
    by (simp add: submit_active[OF assms(1)] all)
  moreover have "length ?qs = length (map (review_of frm) ?qs)" by simp
  ultimately show ?thesis using len by blast
qed

theorem C1_witness:
  "qids \<lparr>qids = Some [''q3'', ''q1''], started_at = Some ''t0''\<rparr> = Some [''q3'', ''q1''] \<and>
   set [''q3'', ''q1''] \<subseteq> QuestionID ` set bank3 \<and>
   distinct (map QuestionID bank3) \<and> distinct [''q3'', ''q1''] \<and>
   snd (submit ''t1'' bank3 [''q1'' \<mapsto> ''A'', ''q3'' \<mapsto> ''B'']
          \<lparr>qids = Some [''q3'', ''q1''], started_at = Some ''t0''\<rparr>) =
     ResultPage 2 2
       [\<lparr>rv_QuestionID = ''q3'', rv_QuestionText = Text ''Question q3'',
          rv_YourAnswer = Some ''B'', rv_CorrectAnswer = Text ''B''\<rparr>,
        \<lparr>rv_QuestionID = ''q1'', rv_QuestionText = Text ''Question q1'',
          rv_YourAnswer = Some ''A'', rv_CorrectAnswer = Text ''A''\<rparr>]
       ''t1Z''"
proof -
  let ?s = "\<lparr>qids = Some [''q3'', ''q1''], started_at = Some ''t0''\<rparr>"
  let ?f = "[''q1'' \<mapsto> ''A'', ''q3'' \<mapsto> ''B'']"
  have h1: "qids ?s = Some [''q3'', ''q1'']" by simp
  have h2: "set [''q3'', ''q1''] \<subseteq> QuestionID ` set bank3"
    by (simp add: bank3_def question_def)
  have h3: "\<forall>r \<in> set bank3. QuestionID r \<in> set [''q3'', ''q1''] \<longrightarrow>
           (\<exists>a. ?f (QuestionID r) = Some a \<and> CorrectAnswer r = Text a)"
    by (simp add: bank3_def question_def)
  have d1: "distinct (map QuestionID bank3)" by (simp add: bank3_def question_def)
  have d2: "distinct [''q3'', ''q1'']" by simp
  have g: "get_questions_by_ids bank3 [''q3'', ''q1''] = [question ''q3'' ''B'', question ''q1'' ''A'']"
    by (simp add: get_questions_by_ids_def bank3_def question_def)
  have e: "snd (submit ''t1'' bank3 ?f ?s) =
     ResultPage 2 2
       [\<lparr>rv_QuestionID = ''q3'', rv_QuestionText = Text ''Question q3'',
          rv_YourAnswer = Some ''B'', rv_CorrectAnswer = Text ''B''\<rparr>,
        \<lparr>rv_QuestionID = ''q1'', rv_QuestionText = Text ''Question q1'',
          rv_YourAnswer = Some ''A'', rv_CorrectAnswer = Text ''A''\<rparr>]
       ''t1Z''"
    using C1_all_correct_scores_total[OF h1 h2 h3, of "''t1''"]
    by (simp add: submit_active[OF h1] g review_of_def question_def)
  show ?thesis using h1 h2 d1 d2 e by (intro conjI)
qed

text \<open>
  Claim C3, as the program has it. When the count exceeds the number of rows, the
  selection fails for every random source: \<open>_pick_question_ids\<close> raises the sampler's
  ValueError and returns no id list at all, so no shorter or repeated selection can come
  out. The error is raised while \<open>home\<close> serves a request of a session without \<open>qids\<close>;
  startup does not compare the two sizes.
\<close>

theorem C3_oversized_count_fails_per_request:
  assumes "length df < n"
  shows "pick_question_ids rng df n = Inl ValueError \<and>
         (qids s = None \<longrightarrow> home rng now df n s = Inl ValueError)"
  using assms by (simp add: pick_question_ids_def sample_def home_def)

theorem C3_witness:
  "length bank2 < 3 \<and> qids \<lparr>qids = None, started_at = None\<rparr> = None \<and>
   pick_question_ids (\<lambda>i. i) bank2 3 = Inl ValueError \<and>
   home (\<lambda>i. i) ''t1'' bank2 3 \<lparr>qids = None, started_at = None\<rparr> = Inl ValueError"
proof -
  have h: "length bank2 < 3" by (simp add: bank2_def)
  have a: "qids \<lparr>qids = None, started_at = None\<rparr> = None" by simp
  show ?thesis
    using h a C3_oversized_count_fails_per_request[OF h, of "\<lambda>i. i" "\<lparr>qids = None, started_at = None\<rparr>" "''t1''"]
    by simp
qed

text \<open>
  The claim as stated fails: a one-row sheet passes startup although
  \<open>QUESTIONS_PER_QUIZ\<close> is 20, a session that already holds ids is served its quiz page,
  and the ValueError appears only when a request needs a new selection.
\<close>

theorem C3_counterexample:
  "startup text_of sheet1 = Inr [question ''q1'' ''A''] \<and>
   length [question ''q1'' ''A''] < QUESTIONS_PER_QUIZ \<and>
   home (\<lambda>i. 0) ''t1'' [question ''q1'' ''A''] QUESTIONS_PER_QUIZ
       \<lparr>qids = Some [''q1''], started_at = Some ''t0''\<rparr> =
     Inr (\<lparr>qids = Some [''q1''], started_at = Some ''t0''\<rparr>, QuizPage [question ''q1'' ''A''] 1) \<and>
   home (\<lambda>i. 0) ''t1'' [question ''q1'' ''A''] QUESTIONS_PER_QUIZ
       \<lparr>qids = None, started_at = None\<rparr> = Inl ValueError"
  by (simp add: startup_def sheet1_def required_cols_def astype_def text_of_def question_def
      QUESTIONS_PER_QUIZ_def home_def get_questions_by_ids_def pick_question_ids_def sample_def)

text \<open>
  Claim C4, as the program has it. \<open>submit\<close> on an active session never fails. The
  selected ids that are not in the bank pass the \<^verbatim>\<open>isin\<close> filter to no row: the ids
  reviewed are exactly the selected ids found in the bank, and the total is the number of
  bank rows whose id was selected.
\<close>

theorem C4_missing_ids_dropped:
  assumes "qids s = Some ids"
  shows "\<exists>score review t.
           submit now df frm s =
             (\<lparr>qids = None, started_at = None\<rparr>, ResultPage score (length review) review t) \<and>
           set (map rv_QuestionID review) = set ids \<inter> QuestionID ` set df \<and>
           length review = length (filter (\<lambda>r. QuestionID r \<in> set ids) df)"
proof -
  let ?qs = "get_questions_by_ids df ids"
  let ?review = "map (review_of frm) ?qs"
  have "submit now df frm s =
          (\<lparr>qids = None, started_at = None\<rparr>,
           ResultPage (length (filter (\<lambda>q. py_eq (frm (QuestionID q)) (CorrectAnswer q)) ?qs))
             (length ?review) ?review (now @ ''Z''))"
    by (simp add: submit_active[OF assms])
  moreover have "set (map rv_QuestionID ?review) = set ids \<inter> QuestionID ` set df"
    by (simp only: rv_ids) (auto simp: set_get_questions_by_ids)
  moreover have "length ?review = length (filter (\<lambda>r. QuestionID r \<in> set ids) df)"
    by (simp add: length_get_questions_by_ids)
  ultimately show ?thesis by blast
qed

theorem C4_witness:
  "qids \<lparr>qids = Some [''lost'', ''q2''], started_at = Some ''t0''\<rparr> = Some [''lost'', ''q2''] \<and>
   submit ''t1'' bank2 [''lost'' \<mapsto> ''A'', ''q2'' \<mapsto> ''D'']
      \<lparr>qids = Some [''lost'', ''q2''], started_at = Some ''t0''\<rparr> =
   (\<lparr>qids = None, started_at = None\<rparr>,
    ResultPage 0 1
      [\<lparr>rv_QuestionID = ''q2'', rv_QuestionText = Text ''Question q2'',
         rv_YourAnswer = Some ''D'', rv_CorrectAnswer = Text ''C''\<rparr>]
      ''t1Z'')"
proof -
  have h: "qids \<lparr>qids = Some [''lost'', ''q2''], started_at = Some ''t0''\<rparr> = Some [''lost'', ''q2'']"
    by simp
  show ?thesis
    using h C4_missing_ids_dropped[OF h, of "''t1''" bank2 "[''lost'' \<mapsto> ''A'', ''q2'' \<mapsto> ''D'']"]
    by (simp add: submit_def Let_def get_questions_by_ids_def bank2_def question_def)
qed

text \<open>
  The claim as stated fails: with the selected id \<open>gone\<close> absent from the bank, \<open>submit\<close>
  returns an ordinary result page, scored out of 1, whose review has no entry for it.
\<close>

theorem C4_counterexample:
  "submit ''t1'' bank2 [''q1'' \<mapsto> ''A'', ''gone'' \<mapsto> ''B'']
      \<lparr>qids = Some [''q1'', ''gone''], started_at = Some ''t0''\<rparr> =
   (\<lparr>qids = None, started_at = None\<rparr>,
    ResultPage 1 1
      [\<lparr>rv_QuestionID = ''q1'', rv_QuestionText = Text ''Question q1'',
         rv_YourAnswer = Some ''A'', rv_CorrectAnswer = Text ''A''\<rparr>]
      ''t1Z'')"
  by (simp add: submit_def Let_def get_questions_by_ids_def bank2_def question_def)

text \<open>
  Claim C7, as the program has it. The review of an active session is always in
  non-decreasing order of position in the stored id list. With unique ids in the bank and
  a stored list without repetitions, the reviewed ids are the stored list with the ids
  missing from the bank left out, in the stored order; when every stored id is in the
  bank, they are the stored list itself, one entry per selected id.
\<close>

theorem C7_review_in_selection_order:
  assumes "qids s = Some ids"
  shows "\<exists>score total review t.
           snd (submit now df frm s) = ResultPage score total review t \<and>
           sorted (map (index ids) (map rv_QuestionID review)) \<and>
           (distinct (map QuestionID df) \<and> distinct ids \<longrightarrow>
              map rv_QuestionID review = filter (\<lambda>i. i \<in> QuestionID ` set df) ids) \<and>
           (distinct (map QuestionID df) \<and> distinct ids \<and> set ids \<subseteq> QuestionID ` set df \<longrightarrow>
              map rv_QuestionID review = ids)"
proof -
  let ?qs = "get_questions_by_ids df ids"
  let ?review = "map (review_of frm) ?qs"
  have r: "map rv_QuestionID ?review = map QuestionID ?qs" by (rule rv_ids)
  have "snd (submit now df frm s) =
          ResultPage (length (filter (\<lambda>q. py_eq (frm (QuestionID q)) (CorrectAnswer q)) ?qs))
             (length ?qs) ?review (now @ ''Z'')"
    by (simp add: submit_active[OF assms])
  moreover have "sorted (map (index ids) (map rv_QuestionID ?review))"
    unfolding r by (rule sorted_get_questions_by_ids)
  moreover have "map rv_QuestionID ?review = filter (\<lambda>i. i \<in> QuestionID ` set df) ids"
    if "distinct (map QuestionID df)" "distinct ids"
    unfolding r using that by (rule ids_get_questions_by_ids)
  moreover have "map rv_QuestionID ?review = ids"
    if "distinct (map QuestionID df)" "distinct ids" "set ids \<subseteq> QuestionID ` set df"
    unfolding r using that by (rule ids_get_questions_by_ids_all)
  ultimately show ?thesis by blast
qed

theorem C7_witness:
  "qids \<lparr>qids = Some [''q3'', ''q1'', ''q2''], started_at = Some ''t0''\<rparr> =
     Some [''q3'', ''q1'', ''q2''] \<and>
   distinct (map QuestionID bank3) \<and> distinct [''q3'', ''q1'', ''q2''] \<and>
   set [''q3'', ''q1'', ''q2''] \<subseteq> QuestionID ` set bank3 \<and>
   snd (submit ''t1'' bank3 [''q2'' \<mapsto> ''C'']
      \<lparr>qids = Some [''q3'', ''q1'', ''q2''], started_at = Some ''t0''\<rparr>) =
    ResultPage 1 3
      [\<lparr>rv_QuestionID = ''q3'', rv_QuestionText = Text ''Question q3'',
         rv_YourAnswer = None, rv_CorrectAnswer = Text ''B''\<rparr>,
       \<lparr>rv_QuestionID = ''q1'', rv_QuestionText = Text ''Question q1'',
         rv_YourAnswer = None, rv_CorrectAnswer = Text ''A''\<rparr>,
       \<lparr>rv_QuestionID = ''q2'', rv_QuestionText = Text ''Question q2'',
         rv_YourAnswer = Some ''C'', rv_CorrectAnswer = Text ''C''\<rparr>]
      ''t1Z''"
proof -
  let ?s = "\<lparr>qids = Some [''q3'', ''q1'', ''q2''], started_at = Some ''t0''\<rparr>"
  have h: "qids ?s = Some [''q3'', ''q1'', ''q2'']" by simp
  have d1: "distinct (map QuestionID bank3)" by (simp add: bank3_def question_def)
  have d2: "distinct [''q3'', ''q1'', ''q2'']" by simp
  have d3: "set [''q3'', ''q1'', ''q2''] \<subseteq> QuestionID ` set bank3"
    by (simp add: bank3_def question_def)
  have e: "snd (submit ''t1'' bank3 [''q2'' \<mapsto> ''C''] ?s) =
    ResultPage 1 3
      [\<lparr>rv_QuestionID = ''q3'', rv_QuestionText = Text ''Question q3'',
         rv_YourAnswer = None, rv_CorrectAnswer = Text ''B''\<rparr>,
       \<lparr>rv_QuestionID = ''q1'', rv_QuestionText = Text ''Question q1'',
         rv_YourAnswer = None, rv_CorrectAnswer = Text ''A''\<rparr>,
       \<lparr>rv_QuestionID = ''q2'', rv_QuestionText = Text ''Question q2'',
         rv_YourAnswer = Some ''C'', rv_CorrectAnswer = Text ''C''\<rparr>]
      ''t1Z''"
    using C7_review_in_selection_order[OF h, of "''t1''" bank3 "[''q2'' \<mapsto> ''C'']"]
    by (simp add: submit_def Let_def get_questions_by_ids_def bank3_def question_def)
  show ?thesis using h d1 d2 d3 e by (intro conjI)
qed

text \<open>
  The claim as stated fails for a session holding an id the bank no longer has: three
  ids are selected, two entries are reviewed.
\<close>

theorem C7_counterexample:
  "snd (submit ''t1'' bank3 [''q3'' \<mapsto> ''B'', ''old'' \<mapsto> ''A'', ''q1'' \<mapsto> ''D'']
      \<lparr>qids = Some [''q3'', ''old'', ''q1''], started_at = Some ''t0''\<rparr>) =
    ResultPage 1 2
      [\<lparr>rv_QuestionID = ''q3'', rv_QuestionText = Text ''Question q3'',
         rv_YourAnswer = Some ''B'', rv_CorrectAnswer = Text ''B''\<rparr>,
       \<lparr>rv_QuestionID = ''q1'', rv_QuestionText = Text ''Question q1'',
         rv_YourAnswer = Some ''D'', rv_CorrectAnswer = Text ''A''\<rparr>]
      ''t1Z'' \<and>
   length [''q3'', ''old'', ''q1''] = 3"
  by (simp add: submit_def Let_def get_questions_by_ids_def bank3_def question_def)

text \<open>
  Claim C5, as the program has it. What \<open>home\<close> sends back (the session and the page
  rendered by the template) is the same for two banks that differ only in their
  \<open>CorrectAnswer\<close> column: the template reads \<open>QuestionID\<close>, \<open>QuestionText\<close>, the four
  options, \<open>Category\<close> and \<open>Difficulty\<close> only.
\<close>

theorem C5_page_independent_of_correct_answer:
  assumes "map (\<lambda>r. r\<lparr>CorrectAnswer := Empty\<rparr>) df1 = map (\<lambda>r. r\<lparr>CorrectAnswer := Empty\<rparr>) df2"
  shows "home_html rng now df1 n s = home_html rng now df2 n s"
proof -
  have "home_html rng now df1 n s = home_html rng now (map (\<lambda>r. r\<lparr>CorrectAnswer := Empty\<rparr>) df1) n s"
    by (rule home_html_erase[symmetric])
  also have "\<dots> = home_html rng now (map (\<lambda>r. r\<lparr>CorrectAnswer := Empty\<rparr>) df2) n s"
    by (simp only: assms)
  also have "\<dots> = home_html rng now df2 n s" by (rule home_html_erase)
  finally show ?thesis .
qed

theorem C5_witness:
  "map (\<lambda>r. r\<lparr>CorrectAnswer := Empty\<rparr>) [question ''q1'' ''A''] =
     map (\<lambda>r. r\<lparr>CorrectAnswer := Empty\<rparr>) [question ''q1'' ''D''] \<and>
   home_html (\<lambda>i. 0) ''t0'' [question ''q1'' ''A''] 1 \<lparr>qids = None, started_at = None\<rparr> =
     Inr (\<lparr>qids = Some [''q1''], started_at = Some ''t0''\<rparr>,
          Some \<lparr>pg_title = ''Random Quiz (20 of 100)'', pg_n = 1,
                pg_questions =
                  [\<lparr>rq_index = 1, rq_text = Text ''Question q1'', rq_meta = None,
                     rq_name = ''q1'',
                     rq_options = [(''A'', Text ''first''), (''B'', Text ''second''),
                                   (''C'', Text ''third''), (''D'', Text ''fourth'')]\<rparr>]\<rparr>) \<and>
   home_html (\<lambda>i. 0) ''t0'' [question ''q1'' ''D''] 1 \<lparr>qids = None, started_at = None\<rparr> =
     home_html (\<lambda>i. 0) ''t0'' [question ''q1'' ''A''] 1 \<lparr>qids = None, started_at = None\<rparr>"
proof -
  have h: "map (\<lambda>r. r\<lparr>CorrectAnswer := Empty\<rparr>) [question ''q1'' ''A''] =
     map (\<lambda>r. r\<lparr>CorrectAnswer := Empty\<rparr>) [question ''q1'' ''D'']"
    by (simp add: question_def)
  have e: "home_html (\<lambda>i. 0) ''t0'' [question ''q1'' ''A''] 1 \<lparr>qids = None, started_at = None\<rparr> =
     Inr (\<lparr>qids = Some [''q1''], started_at = Some ''t0''\<rparr>,
          Some \<lparr>pg_title = ''Random Quiz (20 of 100)'', pg_n = 1,
                pg_questions =
                  [\<lparr>rq_index = 1, rq_text = Text ''Question q1'', rq_meta = None,
                     rq_name = ''q1'',
                     rq_options = [(''A'', Text ''first''), (''B'', Text ''second''),
                                   (''C'', Text ''third''), (''D'', Text ''fourth'')]\<rparr>]\<rparr>)"
    by (simp add: home_html_def home_def pick_question_ids_def sample_def
        get_questions_by_ids_def question_def Let_def render_quiz_def render_question_def
        render_meta_def APP_TITLE_def)
  note t = C5_page_independent_of_correct_answer[OF h, of "\<lambda>i. 0" "''t0''" 1 "\<lparr>qids = None, started_at = None\<rparr>"]
  show ?thesis using h e t[symmetric] by (intro conjI)
qed

text \<open>
  The claim as stated fails: the question records \<open>home\<close> hands to the template are whole
  rows of the bank, \<open>CorrectAnswer\<close> included.
\<close>

theorem C5_counterexample:
  "home (\<lambda>i. 0) ''t0'' [question ''q1'' ''A''] 1 \<lparr>qids = None, started_at = None\<rparr> =
     Inr (\<lparr>qids = Some [''q1''], started_at = Some ''t0''\<rparr>,
          QuizPage
            [\<lparr>QuestionID = ''q1'', QuestionText = Text ''Question q1'',
               OptionA = Text ''first'', OptionB = Text ''second'', OptionC = Text ''third'',
               OptionD = Text ''fourth'', CorrectAnswer = Text ''A'', Category = None,
               Difficulty = None\<rparr>] 1)"
  by (simp add: home_def pick_question_ids_def sample_def get_questions_by_ids_def question_def Let_def)

end
